theory Spec2Isabelle
  imports Main
begin

section \<open>Memory, events and failures\<close>

text \<open>
  The singletons of \<^verbatim>\<open>Singleton.cpp\<close> live in static storage and on the free store.
  A pointer is either \<^verbatim>\<open>nullptr\<close> or the address of a free-store cell. The free store
  is a list of cells indexed by address: \<open>Some obj\<close> is a live object, \<open>None\<close> a cell whose
  object has been deleted. \<^verbatim>\<open>new\<close> takes the next cell at the end of the list, so an
  address handed out once is never handed out again while the program runs (the free
  store is taken to be unbounded: \<^verbatim>\<open>std::bad_alloc\<close> is not modelled).
\<close>

datatype pointer = nullptr | Ptr nat

type_synonym 'obj free_store = "'obj option list"

definition live :: "'obj free_store \<Rightarrow> nat \<Rightarrow> 'obj option" where
  "live h a = (if a < length h then h ! a else None)"

text \<open>
  What an observer can see of a run: which constructors and destructors ran, on which
  object, and the lines written to \<^verbatim>\<open>std::cout\<close>, in program order.
\<close>

datatype event = Constructed nat | Destroyed nat | Printed string

definition constructions :: "event list \<Rightarrow> nat" where
  "constructions es = length (filter (\<lambda>e. case e of Constructed _ \<Rightarrow> True | _ \<Rightarrow> False) es)"

definition destructions :: "event list \<Rightarrow> nat" where
  "destructions es = length (filter (\<lambda>e. case e of Destroyed _ \<Rightarrow> True | _ \<Rightarrow> False) es)"

text \<open>
  The ways a call can fail to return normally: a failed \<^verbatim>\<open>assert\<close>, an exception of
  the guarded type's constructor leaving the call, and undefined behaviour
  (\<^verbatim>\<open>delete\<close> of a pointer that does not point to a live object).
\<close>

datatype 'e failure = AssertionFailed | Thrown 'e | UndefinedBehaviour

text \<open>
  Modelled from the spec: the \<^verbatim>\<open>assert\<close> macro. The source uses it in
  \<^verbatim>\<open>Clobal::New\<close> but includes no header that declares it; the spec describes a failed
  assertion as a fatal contract failure that aborts the process. \<open>Inr ()\<close> lets the
  caller continue, \<open>Inl AssertionFailed\<close> is the abort.
\<close>

definition assert :: "bool \<Rightarrow> 'e failure + unit" where
  "assert b = (if b then Inr () else Inl AssertionFailed)"


section \<open>The registry \<^verbatim>\<open>Clobal<T>\<close>\<close>

text \<open>
  \<^verbatim>\<open>
  template<typename T>
  class Clobal final{
  public:
      static T* Get() {return *GetPPtr();}
      template<typename... Args>
      static void New(Args&&... args){
          assert(Get() == nullptr);
          *GetPPtr() = new T(std::forward<Args>(args)...);
      }
      static void Delete(){
          if(Get() != nullptr){
              delete Get();
              *GetPPtr() = nullptr;
              std::cout << "Delete" << std::endl;
          }
      }
  private:
      static T** GetPPtr(){
          static T* ptr = nullptr;
          return &ptr;
      }
  };
  \<close>
  The state of one instantiation \<^verbatim>\<open>Clobal<T>\<close>: the function-local static \<^verbatim>\<open>ptr\<close> of
  \<^verbatim>\<open>GetPPtr\<close> (the slot), the free store of \<^verbatim>\<open>T\<close> objects, and the observable events.
\<close>

record 'obj Clobal_state =
  ptr :: pointer
  store :: "'obj free_store"
  events :: "event list"

text \<open>
  \<^verbatim>\<open>ptr\<close> is initialised with the constant \<^verbatim>\<open>nullptr\<close>, so it holds that value from
  program start, before any call.
\<close>

definition Clobal_init :: "'obj Clobal_state" where
  "Clobal_init = \<lparr>ptr = nullptr, store = [], events = []\<rparr>"

text \<open>
  \<^verbatim>\<open>GetPPtr\<close> returns the address of the static: a value of type \<^verbatim>\<open>T**\<close>. There is one
  such address per instantiation. Reading and writing through it are \<open>deref\<close> and
  \<open>assign\<close>.
\<close>

datatype pptr = Address_of_ptr

definition GetPPtr :: pptr where
  "GetPPtr = Address_of_ptr"

fun deref :: "pptr \<Rightarrow> 'obj Clobal_state \<Rightarrow> pointer" where
  "deref Address_of_ptr s = ptr s"

fun assign :: "pptr \<Rightarrow> pointer \<Rightarrow> 'obj Clobal_state \<Rightarrow> 'obj Clobal_state" where
  "assign Address_of_ptr p s = s\<lparr>ptr := p\<rparr>"

text \<open>
  Every member function takes the state and returns its result with the state after
  the call, or the failure that ended the call.
\<close>

definition Get :: "'obj Clobal_state \<Rightarrow> pointer \<times> 'obj Clobal_state" where
  "Get s = (deref GetPPtr s, s)"

text \<open>
  \<^verbatim>\<open>new T(args...)\<close>: the constructor of \<^verbatim>\<open>T\<close> is a parameter, a function from the
  forwarded arguments to the exception it throws or the object it builds. When it
  throws, the storage is released again and the exception leaves the expression; when it
  returns, the object lives at a fresh address.
\<close>

definition new :: "('args \<Rightarrow> 'e + 'obj) \<Rightarrow> 'args \<Rightarrow> 'obj Clobal_state
    \<Rightarrow> 'e failure + (pointer \<times> 'obj Clobal_state)" where
  "new ctor args s =
     (case ctor args of
        Inl e \<Rightarrow> Inl (Thrown e)
      | Inr obj \<Rightarrow>
          (let a = length (store s)
           in Inr (Ptr a, s\<lparr>store := store s @ [Some obj],
                            events := events s @ [Constructed a]\<rparr>)))"

text \<open>
  \<^verbatim>\<open>delete p\<close>: nothing happens for \<^verbatim>\<open>nullptr\<close>; for a live object the destructor runs
  and the cell is released; anything else is undefined behaviour.
\<close>

definition delete :: "pointer \<Rightarrow> 'obj Clobal_state \<Rightarrow> 'e failure + 'obj Clobal_state" where
  "delete p s =
     (case p of
        nullptr \<Rightarrow> Inr s
      | Ptr a \<Rightarrow>
          (case live (store s) a of
             None \<Rightarrow> Inl UndefinedBehaviour
           | Some obj \<Rightarrow> Inr (s\<lparr>store := (store s)[a := None],
                                events := events s @ [Destroyed a]\<rparr>)))"

definition cout :: "string \<Rightarrow> 'obj Clobal_state \<Rightarrow> 'obj Clobal_state" where
  "cout line s = s\<lparr>events := events s @ [Printed line]\<rparr>"

definition New :: "('args \<Rightarrow> 'e + 'obj) \<Rightarrow> 'args \<Rightarrow> 'obj Clobal_state
    \<Rightarrow> 'e failure + 'obj Clobal_state" where
  "New ctor args s =
     (let (p, s1) = Get s
      in case assert (p = nullptr) of
           Inl f \<Rightarrow> Inl f
         | Inr _ \<Rightarrow>
             (case new ctor args s1 of
                Inl f \<Rightarrow> Inl f
              | Inr (q, s2) \<Rightarrow> Inr (assign GetPPtr q s2)))"

definition Delete :: "'obj Clobal_state \<Rightarrow> 'e failure + 'obj Clobal_state" where
  "Delete s =
     (let (p, s1) = Get s
      in if p \<noteq> nullptr
         then (let (q, s2) = Get s1
               in case delete q s2 of
                    Inl f \<Rightarrow> Inl f
                  | Inr s3 \<Rightarrow> Inr (cout ''Delete'' (assign GetPPtr nullptr s3)))
         else Inr s1)"

text \<open>
  The slot owns its object: a slot that is not \<^verbatim>\<open>nullptr\<close> points to a live object.
  \<^verbatim>\<open>ptr\<close> is private to \<^verbatim>\<open>GetPPtr\<close>, so only \<open>New\<close> and \<open>Delete\<close> write it.
\<close>

definition owns :: "'obj Clobal_state \<Rightarrow> bool" where
  "owns s = (case ptr s of nullptr \<Rightarrow> True | Ptr a \<Rightarrow> live (store s) a \<noteq> None)"

text \<open>
  A caller's sequence of calls on the registry: each call starts in the state the one
  before left, and a failure ends the run.
\<close>

datatype 'args Clobal_call = Call_Get | Call_New 'args | Call_Delete

fun Clobal_run :: "('args \<Rightarrow> 'e + 'obj) \<Rightarrow> 'args Clobal_call list \<Rightarrow> 'obj Clobal_state
    \<Rightarrow> 'e failure + 'obj Clobal_state" where
  "Clobal_run ctor [] s = Inr s"
| "Clobal_run ctor (Call_Get # cs) s = Clobal_run ctor cs (snd (Get s))"
| "Clobal_run ctor (Call_New args # cs) s =
     (case New ctor args s of Inl f \<Rightarrow> Inl f | Inr s1 \<Rightarrow> Clobal_run ctor cs s1)"
| "Clobal_run ctor (Call_Delete # cs) s =
     (case Delete s of Inl f \<Rightarrow> Inl f | Inr s1 \<Rightarrow> Clobal_run ctor cs s1)"

text \<open>
  Modelled from the spec: the type \<^verbatim>\<open>Foo\<close> of the registry scenario, a class whose
  constructor takes two arguments and keeps them. The source defines no such class.
\<close>

datatype Foo = Foo int int

definition Foo_ctor :: "int \<times> int \<Rightarrow> string + Foo" where
  "Foo_ctor args = (case args of (a, b) \<Rightarrow> Inr (Foo a b))"


section \<open>The double-checked-locking singleton \<^verbatim>\<open>Singleton1\<close>\<close>

text \<open>
  \<^verbatim>\<open>
  class Singleton1{
  public:
      typedef std::shared_ptr<Singleton1> ptr;
      ~Singleton1(){ std::cout<<"destructor called" << std::endl; }
      static ptr get_instance(){
          if(m_instance_ptr == nullptr){
              std::lock_guard<std::mutex> lk(m_mutex);
              if(m_instance_ptr == nullptr){
                  m_instance_ptr = std::shared_ptr<Singleton1> (new Singleton1);
              }
          }
          return m_instance_ptr;
      }
  private:
      Singleton1(){ std::cout << "constructor called"  << std::endl; }
      static ptr m_instance_ptr;
      static std::mutex m_mutex;
  };
  \<close>
  The model is that of one thread of control: calls do not overlap. A
  \<^verbatim>\<open>Singleton1\<close> has no data members, so a live object is described by the use count of
  the control block that the shared pointers to it share. The state holds the stored
  pointer of the static \<^verbatim>\<open>m_instance_ptr\<close>, whether \<^verbatim>\<open>m_mutex\<close> is locked, the free
  store and the observable events.
\<close>

record Singleton1_state =
  m_instance_ptr :: pointer
  m_mutex :: bool
  objects :: "nat free_store"
  trace :: "event list"

text \<open>Both statics are default-initialised: an empty shared pointer, an unlocked mutex.\<close>

definition Singleton1_init :: Singleton1_state where
  "Singleton1_init = \<lparr>m_instance_ptr = nullptr, m_mutex = False, objects = [], trace = []\<rparr>"

definition use_count :: "Singleton1_state \<Rightarrow> pointer \<Rightarrow> nat" where
  "use_count s p =
     (case p of
        nullptr \<Rightarrow> 0
      | Ptr a \<Rightarrow> (case live (objects s) a of None \<Rightarrow> 0 | Some n \<Rightarrow> n))"

text \<open>
  \<^verbatim>\<open>std::lock_guard<std::mutex> lk(m_mutex)\<close> returns once it holds the mutex. With a single
  thread of control nobody can release a mutex that is already locked, so a call that
  finds it locked does not return: \<open>None\<close>. The guard's destructor unlocks at the end of
  the block.
\<close>

definition lock_guard :: "Singleton1_state \<Rightarrow> Singleton1_state option" where
  "lock_guard s = (if m_mutex s then None else Some (s\<lparr>m_mutex := True\<rparr>))"

definition unlock :: "Singleton1_state \<Rightarrow> Singleton1_state" where
  "unlock s = s\<lparr>m_mutex := False\<rparr>"

text \<open>
  \<^verbatim>\<open>std::shared_ptr<Singleton1>(new Singleton1)\<close>: the constructor prints its line, the
  object takes a fresh cell, and the temporary shared pointer is its only owner.
\<close>

definition shared_ptr_of_new :: "Singleton1_state \<Rightarrow> pointer \<times> Singleton1_state" where
  "shared_ptr_of_new s =
     (let a = length (objects s)
      in (Ptr a, s\<lparr>objects := objects s @ [Some 1],
                    trace := trace s @ [Printed ''constructor called'', Constructed a]\<rparr>))"

text \<open>
  A shared pointer that lets go of its object takes one from the use count; the last
  owner runs the destructor, which prints its line, and releases the cell.
\<close>

definition release :: "pointer \<Rightarrow> Singleton1_state \<Rightarrow> Singleton1_state" where
  "release p s =
     (case p of
        nullptr \<Rightarrow> s
      | Ptr a \<Rightarrow>
          (case live (objects s) a of
             None \<Rightarrow> s
           | Some n \<Rightarrow>
               (if n \<le> 1
                then s\<lparr>objects := (objects s)[a := None],
                       trace := trace s @ [Printed ''destructor called'', Destroyed a]\<rparr>
                else s\<lparr>objects := (objects s)[a := Some (n - 1)]\<rparr>)))"

text \<open>
  Move assignment \<^verbatim>\<open>m_instance_ptr = <temporary>\<close>: the static takes over the
  temporary's ownership and lets go of what it held before.
\<close>

definition assign_m_instance_ptr :: "pointer \<Rightarrow> Singleton1_state \<Rightarrow> Singleton1_state" where
  "assign_m_instance_ptr p s = release (m_instance_ptr s) (s\<lparr>m_instance_ptr := p\<rparr>)"

text \<open>
  \<^verbatim>\<open>return m_instance_ptr\<close> copies the static into the returned handle: one more owner.
\<close>

definition copy_m_instance_ptr :: "Singleton1_state \<Rightarrow> pointer \<times> Singleton1_state" where
  "copy_m_instance_ptr s =
     (case m_instance_ptr s of
        nullptr \<Rightarrow> (nullptr, s)
      | Ptr a \<Rightarrow>
          (case live (objects s) a of
             None \<Rightarrow> (Ptr a, s)
           | Some n \<Rightarrow> (Ptr a, s\<lparr>objects := (objects s)[a := Some (Suc n)]\<rparr>)))"

definition Singleton1_get_instance :: "Singleton1_state \<Rightarrow> (pointer \<times> Singleton1_state) option" where
  "Singleton1_get_instance s =
     (if m_instance_ptr s = nullptr
      then (case lock_guard s of
              None \<Rightarrow> None
            | Some s1 \<Rightarrow>
                (let s2 = (if m_instance_ptr s1 = nullptr
                           then (let (p, s') = shared_ptr_of_new s1 in assign_m_instance_ptr p s')
                           else s1)
                 in Some (copy_m_instance_ptr (unlock s2))))
      else Some (copy_m_instance_ptr s))"

text \<open>
  \<open>n\<close> calls one after the other, the caller keeping every handle it gets. The result is
  the list of handles in call order and the state after the last call.
\<close>

fun Singleton1_calls :: "nat \<Rightarrow> Singleton1_state \<Rightarrow> (pointer list \<times> Singleton1_state) option" where
  "Singleton1_calls 0 s = Some ([], s)"
| "Singleton1_calls (Suc n) s =
     (case Singleton1_get_instance s of
        None \<Rightarrow> None
      | Some (p, s1) \<Rightarrow>
          (case Singleton1_calls n s1 of
             None \<Rightarrow> None
           | Some (ps, s2) \<Rightarrow> Some (p # ps, s2)))"

text \<open>
  A caller may also let go of handles it holds. A run is a list of steps, each a call
  of \<^verbatim>\<open>get_instance\<close> or the destruction of the handle obtained last and still held;
  the result lists the handles returned, in call order, the handles still held, and
  the final state.
\<close>

datatype Singleton1_op = Call_get_instance | Drop_handle

fun Singleton1_run :: "Singleton1_op list \<Rightarrow> pointer list \<Rightarrow> Singleton1_state
    \<Rightarrow> (pointer list \<times> pointer list \<times> Singleton1_state) option" where
  "Singleton1_run [] hs s = Some ([], hs, s)"
| "Singleton1_run (Call_get_instance # ops) hs s =
     (case Singleton1_get_instance s of
        None \<Rightarrow> None
      | Some (p, s1) \<Rightarrow>
          (case Singleton1_run ops (p # hs) s1 of
             None \<Rightarrow> None
           | Some (ps, hs', s2) \<Rightarrow> Some (p # ps, hs', s2)))"
| "Singleton1_run (Drop_handle # ops) hs s =
     (case hs of
        [] \<Rightarrow> Singleton1_run ops [] s
      | h # hs' \<Rightarrow> Singleton1_run ops hs' (release h s))"

text \<open>
  Once the instance exists at address \<open>a\<close>: the mutex is free, the static and every
  handle held point to \<open>a\<close>, and the use count is the number of these owners.
\<close>

definition held_inv :: "nat \<Rightarrow> pointer list \<Rightarrow> Singleton1_state \<Rightarrow> bool" where
  "held_inv a hs s =
     (\<not> m_mutex s \<and> m_instance_ptr s = Ptr a \<and> hs = replicate (length hs) (Ptr a) \<and>
      use_count s (Ptr a) = Suc (length hs))"

text \<open>The number of \<^verbatim>\<open>get_instance\<close> calls in a run.\<close>

definition gets :: "Singleton1_op list \<Rightarrow> nat" where
  "gets ops = length (filter (\<lambda>c. c = Call_get_instance) ops)"

text \<open>
  What holds between calls: the mutex is free, and the static, once set, is one of the
  owners of a live object.
\<close>

definition Singleton1_inv :: "Singleton1_state \<Rightarrow> bool" where
  "Singleton1_inv s =
     (\<not> m_mutex s \<and>
      (case m_instance_ptr s of nullptr \<Rightarrow> True | Ptr a \<Rightarrow> 0 < use_count s (Ptr a)))"


section \<open>The token-gated base \<^verbatim>\<open>Singleton3<T>\<close> and \<^verbatim>\<open>DerivedSingle\<close>\<close>

text \<open>
  \<^verbatim>\<open>
  template<typename  T>
  class Singleton3{
  public:
      static T& get_instance() noexcept(std::is_nothrow_constructible<T>::value){
          static T instance{token()};
          return instance;
      }
      ...
  protected:
      struct token{};
      Singleton3() noexcept = default;
  };
  \<close>
  The template parameter \<^verbatim>\<open>T\<close> is described by what \<^verbatim>\<open>get_instance\<close> uses of it:
  \<^item> \<open>is_nothrow_constructible\<close>: the value of \<^verbatim>\<open>std::is_nothrow_constructible<T>::value\<close>.
    The trait is given no argument types, so it tells whether \<^verbatim>\<open>T()\<close>, construction from
    no arguments, is possible and cannot throw. The header \<^verbatim>\<open><type_traits>\<close> is not part
    of the source; the value is a parameter.
  \<^item> \<open>token_ctor\<close>: the constructor \<^verbatim>\<open>T(token)\<close>. It runs in the rest of the process, the
    world \<open>'w\<close>, which it may change, and either throws or builds the object.
\<close>

datatype token = Token

record ('w, 'e, 'obj) singleton_type =
  is_nothrow_constructible :: bool
  token_ctor :: "token \<Rightarrow> 'w \<Rightarrow> ('e + 'obj) \<times> 'w"

text \<open>
  The function-local static \<^verbatim>\<open>instance\<close> of type \<^verbatim>\<open>T\<close>: \<open>None\<close> until its initialisation has
  completed, then the object. \<open>ctor_calls\<close> counts how often control entered the
  constructor of \<^verbatim>\<open>T\<close>.
\<close>

record ('w, 'obj) Singleton3_state =
  instance_T :: "'obj option"
  ctor_calls :: nat
  world :: 'w

definition Singleton3_init :: "'w \<Rightarrow> ('w, 'obj) Singleton3_state" where
  "Singleton3_init w = \<lparr>instance_T = None, ctor_calls = 0, world = w\<rparr>"

text \<open>
  A call returns a reference to the static, or an exception leaves it, or
  \<^verbatim>\<open>std::terminate\<close> ends the process. The reference is given by the object it refers to.
\<close>

datatype ('e, 'obj, 's) outcome = Returned 'obj 's | Threw 'e 's | Terminated

text \<open>
  Control passes the declaration \<^verbatim>\<open>static T instance{token()}\<close>: a static whose
  initialisation has completed is skipped. Otherwise the constructor runs; when it
  throws, the initialisation is not complete and is tried again the next time control
  enters the declaration. An exception that reaches the boundary of a function declared
  \<^verbatim>\<open>noexcept(true)\<close> calls \<^verbatim>\<open>std::terminate\<close>.
\<close>

definition Singleton3_get_instance ::
    "('w, 'e, 'obj) singleton_type \<Rightarrow> ('w, 'obj) Singleton3_state
      \<Rightarrow> ('e, 'obj, ('w, 'obj) Singleton3_state) outcome" where
  "Singleton3_get_instance T s =
     (case instance_T s of
        Some obj \<Rightarrow> Returned obj s
      | None \<Rightarrow>
          (case token_ctor T Token (world s) of
             (Inr obj, w) \<Rightarrow>
               Returned obj (s\<lparr>instance_T := Some obj, ctor_calls := Suc (ctor_calls s), world := w\<rparr>)
           | (Inl e, w) \<Rightarrow>
               (if is_nothrow_constructible T
                then Terminated
                else Threw e (s\<lparr>ctor_calls := Suc (ctor_calls s), world := w\<rparr>))))"

text \<open>
  \<^verbatim>\<open>
  class DerivedSingle : public Singleton3<DerivedSingle>{
  public:
      DerivedSingle(token){ std::cout << "constructor called" << std::endl; }
      ...
  };
  \<close>
  \<^verbatim>\<open>DerivedSingle\<close> has no data members and no constructor without arguments, so
  the trait is false for it. Its world is the lines printed so far.
\<close>

definition DerivedSingle :: "(string list, string, unit) singleton_type" where
  "DerivedSingle =
     \<lparr>is_nothrow_constructible = False,
      token_ctor = (\<lambda>t out. (Inr (), out @ [''constructor called'']))\<rparr>"

text \<open>
  Two further arguments for \<^verbatim>\<open>T\<close>, not classes of the source. The first is a type the
  template accepts as well: it can be built from no arguments without throwing, and its
  constructor from a token throws.
  \<^verbatim>\<open>
  class Throwing_with_default : public Singleton3<Throwing_with_default>{
  public:
      Throwing_with_default() noexcept {}
      Throwing_with_default(token){ throw std::runtime_error("construction failed"); }
  };
  \<close>
\<close>

definition Throwing_with_default :: "(unit, string, unit) singleton_type" where
  "Throwing_with_default =
     \<lparr>is_nothrow_constructible = True,
      token_ctor = (\<lambda>t w. (Inl ''construction failed'', w))\<rparr>"

text \<open>
  The second is a type whose only constructor takes the token, throws on the first
  attempt and succeeds afterwards; its world counts the attempts.
\<close>

definition Fails_once :: "(nat, string, nat) singleton_type" where
  "Fails_once =
     \<lparr>is_nothrow_constructible = False,
      token_ctor = (\<lambda>t n. (if n = 0 then Inl ''not yet'' else Inr n, Suc n))\<rparr>"

text \<open>
  \<^verbatim>\<open>
  int main(int argc,char *argv[]){
      DerivedSingle& instance1 = DerivedSingle::get_instance();
      DerivedSingle& instance2 = DerivedSingle::get_instance();
  }
  \<close>
  The entry point fetches the instance twice. An exception that leaves \<^verbatim>\<open>main\<close>
  ends the process through \<^verbatim>\<open>std::terminate\<close>.
\<close>

definition main :: "(string list, unit) Singleton3_state
    \<Rightarrow> (string, unit \<times> unit, (string list, unit) Singleton3_state) outcome" where
  "main s =
     (case Singleton3_get_instance DerivedSingle s of
        Returned instance1 s1 \<Rightarrow>
          (case Singleton3_get_instance DerivedSingle s1 of
             Returned instance2 s2 \<Rightarrow> Returned (instance1, instance2) s2
           | Threw e s2 \<Rightarrow> Terminated
           | Terminated \<Rightarrow> Terminated)
      | Threw e s1 \<Rightarrow> Terminated
      | Terminated \<Rightarrow> Terminated)"


section \<open>The eager singleton \<^verbatim>\<open>Singleton4\<close>\<close>

text \<open>
  \<^verbatim>\<open>
  class Singleton4{
  private:
      static Singleton4 m_instance;
  public:
      static Singleton4& get_instance(){ return m_instance; }
      ...
  private:
      Singleton4(){ std::cout << "constructor called" << std::endl; }
  };
  Singleton4 Singleton4::m_instance;
  \<close>
  \<^verbatim>\<open>m_instance\<close> is an object of static storage: its storage exists from program load,
  and the definition on the last line constructs it during static initialisation,
  before \<^verbatim>\<open>main\<close> starts. The state says whether the constructor has run, and holds
  the observable events.
\<close>

record Singleton4_state =
  m_instance_constructed :: bool
  printed :: "event list"

definition Singleton4_loaded :: Singleton4_state where
  "Singleton4_loaded = \<lparr>m_instance_constructed = False, printed = []\<rparr>"

definition Singleton4_static_initialization :: "Singleton4_state \<Rightarrow> Singleton4_state" where
  "Singleton4_static_initialization s =
     s\<lparr>m_instance_constructed := True,
       printed := printed s @ [Printed ''constructor called'', Constructed 0]\<rparr>"

text \<open>The state in which \<^verbatim>\<open>main\<close> starts.\<close>

definition Singleton4_at_main :: Singleton4_state where
  "Singleton4_at_main = Singleton4_static_initialization Singleton4_loaded"

text \<open>A \<^verbatim>\<open>Singleton4&\<close> can only refer to the one static object.\<close>

datatype Singleton4_ref = Ref_m_instance

definition Singleton4_get_instance :: "Singleton4_state \<Rightarrow> Singleton4_ref \<times> Singleton4_state" where
  "Singleton4_get_instance s = (Ref_m_instance, s)"

fun Singleton4_calls :: "nat \<Rightarrow> Singleton4_state \<Rightarrow> Singleton4_ref list \<times> Singleton4_state" where
  "Singleton4_calls 0 s = ([], s)"
| "Singleton4_calls (Suc n) s =
     (let (r, s1) = Singleton4_get_instance s;
          (rs, s2) = Singleton4_calls n s1
      in (r # rs, s2))"


section \<open>Properties of the registry\<close>

lemma owns_init: "owns Clobal_init"
  by (simp add: owns_def Clobal_init_def)

lemma New_owns:
  assumes "New ctor args s = Inr s'"
  shows "owns s'"
  using assms
  by (auto simp: New_def Get_def GetPPtr_def assert_def new_def owns_def live_def Let_def
      split: if_splits sum.splits)

lemma Delete_owns:
  assumes "Delete s = Inr s'"
  shows "owns s'"
  using assms
  by (auto simp: Delete_def Get_def GetPPtr_def delete_def cout_def owns_def Let_def
      split: if_splits sum.splits pointer.splits option.splits)

lemma Get_owns: "owns (snd (Get s)) = owns s"
  by (simp add: Get_def)

text \<open>Every state a caller can reach through the three member functions is owned.\<close>

lemma Clobal_run_owns:
  fixes ctor :: "'args \<Rightarrow> 'e + 'obj"
  assumes "owns s" and "Clobal_run ctor cs s = Inr s'"
  shows "owns s'"
  using assms
proof (induction cs arbitrary: s)
  case Nil
  then show ?case by simp
next
  case (Cons c cs)
  show ?case
  proof (cases c)
    case Call_Get
    with Cons.prems have "owns (snd (Get s))" "Clobal_run ctor cs (snd (Get s)) = Inr s'"
      by (simp_all add: Get_owns)
    then show ?thesis by (rule Cons.IH)
  next
    case (Call_New args)
    with Cons.prems obtain s1 where n: "New ctor args s = Inr s1"
        and r: "Clobal_run ctor cs s1 = Inr s'"
      by (auto split: sum.splits)
    show ?thesis by (rule Cons.IH [OF New_owns [OF n] r])
  next
    case Call_Delete
    with Cons.prems obtain s1 where d: "Delete s = (Inr s1 :: 'e failure + 'obj Clobal_state)"
        and r: "Clobal_run ctor cs s1 = Inr s'"
      by (auto split: sum.splits)
    show ?thesis by (rule Cons.IH [OF Delete_owns [OF d] r])
  qed
qed

lemma Clobal_reachable_owns:
  assumes "Clobal_run ctor cs Clobal_init = Inr s"
  shows "owns s"
  using Clobal_run_owns [OF owns_init assms] .

text \<open>
  C1. The registry scenario for \<^verbatim>\<open>Foo\<close>: starting from an empty slot, \<open>New(1,2)\<close>
  succeeds, \<open>Get\<close> then returns a pointer to a live \<open>Foo\<close> built from the arguments
  \<open>(1,2)\<close>; \<open>Delete\<close> destroys that object, after which \<open>Get\<close> returns \<^verbatim>\<open>nullptr\<close>;
  a second \<open>Delete\<close> returns normally and leaves the whole state, the record of
  destructor calls included, as it was.
\<close>

theorem Clobal_Foo_scenario:
  assumes "ptr s = nullptr"
  shows "\<exists>a s1 s2.
           New Foo_ctor (1, 2) s = Inr s1 \<and>
           Get s1 = (Ptr a, s1) \<and> live (store s1) a = Some (Foo 1 2) \<and>
           constructions (events s1) = Suc (constructions (events s)) \<and>
           Delete s1 = (Inr s2 :: 'e failure + Foo Clobal_state) \<and>
           Get s2 = (nullptr, s2) \<and> live (store s2) a = None \<and>
           destructions (events s2) = Suc (destructions (events s)) \<and>
           Delete s2 = (Inr s2 :: 'e failure + Foo Clobal_state)"
proof -
  define a where "a = length (store s)"
  define s1 where "s1 = s\<lparr>store := store s @ [Some (Foo 1 2)],
                          events := events s @ [Constructed a], ptr := Ptr a\<rparr>"
  define s2 where "s2 = s1\<lparr>store := (store s1)[a := None],
                           events := events s1 @ [Destroyed a, Printed ''Delete''],
                           ptr := nullptr\<rparr>"
  have n: "New Foo_ctor (1, 2) s = Inr s1"
    using assms
    by (simp add: New_def Get_def GetPPtr_def assert_def new_def Foo_ctor_def s1_def a_def Let_def)
  have g1: "Get s1 = (Ptr a, s1)"
    by (simp add: Get_def GetPPtr_def s1_def)
  have l1: "live (store s1) a = Some (Foo 1 2)"
    by (simp add: s1_def a_def live_def)
  have c1: "constructions (events s1) = Suc (constructions (events s))"
    by (simp add: s1_def constructions_def)
  have d1: "Delete s1 = (Inr s2 :: 'e failure + Foo Clobal_state)"
    using l1 by (simp add: Delete_def Get_def GetPPtr_def delete_def cout_def s2_def s1_def)
  have g2: "Get s2 = (nullptr, s2)"
    by (simp add: Get_def GetPPtr_def s2_def)
  have l2: "live (store s2) a = None"
    by (simp add: s2_def live_def)
  have c2: "destructions (events s2) = Suc (destructions (events s))"
    by (simp add: s2_def s1_def destructions_def)
  have d2: "Delete s2 = (Inr s2 :: 'e failure + Foo Clobal_state)"
    by (simp add: Delete_def Get_def GetPPtr_def s2_def)
  from n g1 l1 c1 d1 g2 l2 c2 d2 show ?thesis by blast
qed

theorem Clobal_Foo_scenario_witness:
  "ptr (Clobal_init :: Foo Clobal_state) = nullptr \<and>
   (\<exists>a s1 s2.
      New Foo_ctor (1, 2) (Clobal_init :: Foo Clobal_state) = Inr s1 \<and>
      Get s1 = (Ptr a, s1) \<and> live (store s1) a = Some (Foo 1 2) \<and>
      constructions (events s1) = Suc (constructions (events (Clobal_init :: Foo Clobal_state))) \<and>
      Delete s1 = (Inr s2 :: string failure + Foo Clobal_state) \<and>
      Get s2 = (nullptr, s2) \<and> live (store s2) a = None \<and>
      destructions (events s2) = Suc (destructions (events (Clobal_init :: Foo Clobal_state))) \<and>
      Delete s2 = (Inr s2 :: string failure + Foo Clobal_state))"
proof -
  have h: "ptr (Clobal_init :: Foo Clobal_state) = nullptr"
    by (simp add: Clobal_init_def)
  from Clobal_Foo_scenario [OF h, where ?'e = string] h show ?thesis by blast
qed

text \<open>
  C2. \<open>New\<close> on an occupied slot: whatever the type, its constructor and the arguments,
  the call ends in the failed assertion. It does not return, so no state follows in
  which the instance would have been replaced, and the constructor is not reached.
\<close>

theorem New_occupied_aborts:
  assumes "ptr s \<noteq> nullptr"
  shows "New ctor args s = Inl AssertionFailed"
  using assms by (simp add: New_def Get_def GetPPtr_def assert_def)

theorem New_occupied_aborts_witness:
  "ptr \<lparr>ptr = Ptr 0, store = [Some (Foo 1 2)], events = [Constructed 0]\<rparr> \<noteq> nullptr \<and>
   New Foo_ctor (3, 4) \<lparr>ptr = Ptr 0, store = [Some (Foo 1 2)], events = [Constructed 0]\<rparr>
     = Inl AssertionFailed"
proof -
  have h: "ptr \<lparr>ptr = Ptr 0, store = [Some (Foo 1 2)], events = [Constructed 0]\<rparr> \<noteq> nullptr"
    by simp
  from New_occupied_aborts [OF h, of Foo_ctor "(3, 4)"] h show ?thesis by blast
qed

text \<open>
  C3. \<open>Delete\<close> twice is \<open>Delete\<close> once, in every state whose slot is empty or owns
  its object: the first call returns a state with an empty slot on which a further
  \<open>Delete\<close> changes nothing. When the slot held an instance, the first call ran its
  destructor once, released it and printed its line; when the slot was empty, the
  first call already changed nothing.
\<close>

theorem Delete_idempotent:
  assumes "owns s"
  shows "\<exists>s1. Delete s = (Inr s1 :: 'e failure + 'obj Clobal_state) \<and>
           Delete s1 = (Inr s1 :: 'e failure + 'obj Clobal_state) \<and> ptr s1 = nullptr \<and>
           (case ptr s of
              nullptr \<Rightarrow> s1 = s
            | Ptr a \<Rightarrow> live (store s1) a = None \<and>
                       events s1 = events s @ [Destroyed a, Printed ''Delete''])"
proof (cases "ptr s")
  case nullptr
  then have "Delete s = (Inr s :: 'e failure + 'obj Clobal_state)"
    by (simp add: Delete_def Get_def GetPPtr_def)
  with nullptr show ?thesis by simp
next
  case (Ptr a)
  with assms obtain obj where l: "live (store s) a = Some obj"
    by (auto simp: owns_def)
  define s1 where "s1 = s\<lparr>store := (store s)[a := None],
                           events := events s @ [Destroyed a, Printed ''Delete''],
                           ptr := nullptr\<rparr>"
  have "Delete s = (Inr s1 :: 'e failure + 'obj Clobal_state)"
    using Ptr l by (simp add: Delete_def Get_def GetPPtr_def delete_def cout_def s1_def)
  moreover have "Delete s1 = (Inr s1 :: 'e failure + 'obj Clobal_state)"
    by (simp add: Delete_def Get_def GetPPtr_def s1_def)
  moreover have "ptr s1 = nullptr" "live (store s1) a = None"
      "events s1 = events s @ [Destroyed a, Printed ''Delete'']"
    by (simp_all add: s1_def live_def)
  ultimately show ?thesis using Ptr by simp
qed

theorem Delete_idempotent_witness:
  "owns \<lparr>ptr = Ptr 0, store = [Some (Foo 1 2)], events = [Constructed 0]\<rparr> \<and>
   (\<exists>s1. Delete \<lparr>ptr = Ptr 0, store = [Some (Foo 1 2)], events = [Constructed 0]\<rparr>
            = (Inr s1 :: string failure + Foo Clobal_state) \<and>
          Delete s1 = (Inr s1 :: string failure + Foo Clobal_state) \<and> ptr s1 = nullptr \<and>
          live (store s1) 0 = None \<and>
          events s1 = [Constructed 0, Destroyed 0, Printed ''Delete''])"
proof -
  have h: "owns \<lparr>ptr = Ptr 0, store = [Some (Foo 1 2)], events = [Constructed 0]\<rparr>"
    by (simp add: owns_def live_def)
  from Delete_idempotent [OF h, where ?'e = string] h show ?thesis by simp
qed

text \<open>
  C4. \<open>Get\<close> returns the value of the slot, which is \<^verbatim>\<open>nullptr\<close> as long as nothing
  has been created, and returns the state it was called in: the slot, the free store
  and the record of constructor calls are the same before and after.
\<close>

theorem Get_returns_slot_unchanged:
  "Get s = (ptr s, s) \<and> Get Clobal_init = (nullptr, Clobal_init)"
  by (simp add: Get_def GetPPtr_def Clobal_init_def)

text \<open>In a state the caller can reach, a pointer that \<open>Get\<close> returns points to a live object.\<close>

lemma Get_reachable_live:
  assumes "Clobal_run ctor cs Clobal_init = Inr s" and "Get s = (Ptr a, s')"
  shows "live (store s) a \<noteq> None"
  using Clobal_reachable_owns [OF assms(1)] assms(2)
  by (auto simp: owns_def Get_def GetPPtr_def)

section \<open>Properties of \<^verbatim>\<open>Singleton1\<close>\<close>

lemma Singleton1_inv_init: "Singleton1_inv Singleton1_init"
  by (simp add: Singleton1_inv_def Singleton1_init_def)

text \<open>
  A call that finds the static empty takes the lock, constructs, publishes and
  returns a second owner of the new object.
\<close>

lemma Singleton1_first_call:
  assumes "Singleton1_inv s" and "m_instance_ptr s = nullptr"
  shows "\<exists>s'. Singleton1_get_instance s = Some (Ptr (length (objects s)), s') \<and>
           m_instance_ptr s' = Ptr (length (objects s)) \<and>
           use_count s' (Ptr (length (objects s))) = 2 \<and>
           trace s' = trace s @ [Printed ''constructor called'', Constructed (length (objects s))] \<and>
           Singleton1_inv s'"
  using assms
  by (simp add: Singleton1_inv_def Singleton1_get_instance_def lock_guard_def unlock_def
      shared_ptr_of_new_def assign_m_instance_ptr_def release_def copy_m_instance_ptr_def
      use_count_def live_def Let_def)

text \<open>
  A call that finds the static set takes the fast path: no lock, no construction,
  no output, one more owner.
\<close>

lemma Singleton1_later_call:
  assumes "Singleton1_inv s" and "m_instance_ptr s = Ptr a"
  shows "\<exists>s'. Singleton1_get_instance s = Some (Ptr a, s') \<and>
           m_instance_ptr s' = Ptr a \<and>
           use_count s' (Ptr a) = Suc (use_count s (Ptr a)) \<and>
           trace s' = trace s \<and>
           Singleton1_inv s'"
proof -
  from assms obtain n where l: "live (objects s) a = Some n" and n: "0 < n"
    by (auto simp: Singleton1_inv_def use_count_def split: option.splits)
  then have a: "a < length (objects s)"
    by (auto simp: live_def split: if_splits)
  show ?thesis
    using assms l n a
    by (simp add: Singleton1_inv_def Singleton1_get_instance_def copy_m_instance_ptr_def
        use_count_def live_def)
qed

lemma Singleton1_calls_later:
  assumes "Singleton1_inv s" and "m_instance_ptr s = Ptr a"
  shows "\<exists>s'. Singleton1_calls n s = Some (replicate n (Ptr a), s') \<and>
           m_instance_ptr s' = Ptr a \<and>
           use_count s' (Ptr a) = use_count s (Ptr a) + n \<and>
           trace s' = trace s \<and>
           Singleton1_inv s'"
  using assms
proof (induction n arbitrary: s)
  case 0
  then show ?case by simp
next
  case (Suc n)
  from Singleton1_later_call [OF Suc.prems] obtain s1 where
    g: "Singleton1_get_instance s = Some (Ptr a, s1)" and p: "m_instance_ptr s1 = Ptr a"
    and u: "use_count s1 (Ptr a) = Suc (use_count s (Ptr a))" and t: "trace s1 = trace s"
    and i: "Singleton1_inv s1"
    by blast
  from Suc.IH [OF i p] obtain s2 where
    c: "Singleton1_calls n s1 = Some (replicate n (Ptr a), s2)" and p2: "m_instance_ptr s2 = Ptr a"
    and u2: "use_count s2 (Ptr a) = use_count s1 (Ptr a) + n" and t2: "trace s2 = trace s1"
    and i2: "Singleton1_inv s2"
    by blast
  from g c have "Singleton1_calls (Suc n) s = Some (replicate (Suc n) (Ptr a), s2)"
    by simp
  with p2 u u2 t t2 i2 show ?case by simp
qed

text \<open>
  C5. With calls that do not overlap, starting from the program's initial state: the
  first call returns a handle that is not null, and during it the constructor runs,
  once. Each of the \<open>n\<close> calls after it returns a handle to the same object; none of
  them constructs or prints, since the trace stays what the first call left. The handles
  share ownership with the static: after \<open>n + 1\<close> calls the use count is \<open>n + 2\<close>.
\<close>

theorem Singleton1_constructs_once:
  "\<exists>a s1 s2.
     Singleton1_get_instance Singleton1_init = Some (Ptr a, s1) \<and>
     constructions (trace s1) = 1 \<and>
     Singleton1_calls n s1 = Some (replicate n (Ptr a), s2) \<and>
     trace s2 = trace s1 \<and>
     use_count s2 (Ptr a) = n + 2"
proof -
  have e: "m_instance_ptr Singleton1_init = nullptr"
    by (simp add: Singleton1_init_def)
  from Singleton1_first_call [OF Singleton1_inv_init e] obtain a s1 where
    g: "Singleton1_get_instance Singleton1_init = Some (Ptr a, s1)" and p: "m_instance_ptr s1 = Ptr a"
    and u: "use_count s1 (Ptr a) = 2"
    and t: "trace s1 = trace Singleton1_init @ [Printed ''constructor called'', Constructed a]"
    and i: "Singleton1_inv s1"
    by blast
  from t have c: "constructions (trace s1) = 1"
    by (simp add: constructions_def Singleton1_init_def)
  from Singleton1_calls_later [OF i p, of n] obtain s2 where
    "Singleton1_calls n s1 = Some (replicate n (Ptr a), s2)" "trace s2 = trace s1"
    "use_count s2 (Ptr a) = use_count s1 (Ptr a) + n"
    by blast
  with g c u show ?thesis by auto
qed

text \<open>
  The same with callers that destroy handles in between: every call in the run returns
  the same non-null handle, the constructor runs in the first call only, and the
  destructor never runs, since the static stays an owner.
\<close>

lemma held_inv_inv: "held_inv a hs s \<Longrightarrow> Singleton1_inv s"
  by (simp add: held_inv_def Singleton1_inv_def)

lemma held_inv_get:
  assumes "held_inv a hs s"
  shows "\<exists>s'. Singleton1_get_instance s = Some (Ptr a, s') \<and> held_inv a (Ptr a # hs) s' \<and>
           trace s' = trace s"
proof -
  from assms have i: "Singleton1_inv s" and p: "m_instance_ptr s = Ptr a"
    by (simp_all add: held_inv_def Singleton1_inv_def)
  from Singleton1_later_call [OF i p] obtain s' where
    "Singleton1_get_instance s = Some (Ptr a, s')" "m_instance_ptr s' = Ptr a"
    "use_count s' (Ptr a) = Suc (use_count s (Ptr a))" "trace s' = trace s" "Singleton1_inv s'"
    by blast
  with assms show ?thesis
    by (auto simp: held_inv_def Singleton1_inv_def)
qed

lemma held_inv_drop:
  assumes "held_inv a (h # hs) s"
  shows "held_inv a hs (release h s) \<and> trace (release h s) = trace s"
proof -
  from assms have h: "h = Ptr a" and u: "use_count s (Ptr a) = Suc (Suc (length hs))"
    and r: "hs = replicate (length hs) (Ptr a)"
    by (auto simp: held_inv_def)
  from u obtain n where l: "live (objects s) a = Some n" and n: "n = Suc (Suc (length hs))"
    by (auto simp: use_count_def split: option.splits)
  then have a: "a < length (objects s)"
    by (auto simp: live_def split: if_splits)
  show ?thesis
    using assms h l n a r
    by (simp add: held_inv_def release_def use_count_def live_def)
qed

lemma Singleton1_run_held:
  assumes "held_inv a hs s"
  shows "\<exists>hs' s'. Singleton1_run ops hs s =
             Some (replicate (length (filter (\<lambda>c. c = Call_get_instance) ops)) (Ptr a), hs', s') \<and>
           held_inv a hs' s' \<and> trace s' = trace s"
  using assms
proof (induction ops arbitrary: hs s)
  case Nil
  then show ?case by simp
next
  case (Cons c ops)
  note IH = Cons.IH and prems = Cons.prems
  show ?case
  proof (cases c)
    case Call_get_instance
    from held_inv_get [OF prems] obtain s1 where
      g: "Singleton1_get_instance s = Some (Ptr a, s1)" and i: "held_inv a (Ptr a # hs) s1"
      and t: "trace s1 = trace s"
      by blast
    from IH [OF i] obtain hs' s' where
      "Singleton1_run ops (Ptr a # hs) s1 =
         Some (replicate (length (filter (\<lambda>c. c = Call_get_instance) ops)) (Ptr a), hs', s')"
      "held_inv a hs' s'" "trace s' = trace s1"
      by blast
    with g t Call_get_instance show ?thesis by simp
  next
    case Drop_handle
    show ?thesis
    proof (cases hs)
      case Nil
      with IH [OF prems] Drop_handle show ?thesis by simp
    next
      case (Cons h hs2)
      with held_inv_drop [of a h hs2 s] prems
      have i: "held_inv a hs2 (release h s)" and t: "trace (release h s) = trace s"
        by simp_all
      from IH [OF i] t Cons Drop_handle show ?thesis by simp
    qed
  qed
qed

lemma Singleton1_run_empty:
  assumes "Singleton1_inv s" and "m_instance_ptr s = nullptr"
  shows "\<exists>a hs' s'. Singleton1_run ops [] s = Some (replicate (gets ops) (Ptr a), hs', s') \<and>
           constructions (trace s') = constructions (trace s) + min 1 (gets ops) \<and>
           destructions (trace s') = destructions (trace s)"
  using assms
proof (induction ops arbitrary: s)
  case Nil
  then show ?case by (simp add: gets_def)
next
  case (Cons c ops)
  show ?case
  proof (cases c)
    case Call_get_instance
    from Singleton1_first_call [OF Cons.prems] obtain a s1 where
      g: "Singleton1_get_instance s = Some (Ptr a, s1)" and p: "m_instance_ptr s1 = Ptr a"
      and u: "use_count s1 (Ptr a) = 2"
      and t: "trace s1 = trace s @ [Printed ''constructor called'', Constructed a]"
      and i: "Singleton1_inv s1"
      by blast
    from i p u have h: "held_inv a [Ptr a] s1"
      by (simp add: held_inv_def Singleton1_inv_def)
    from Singleton1_run_held [OF h, of ops] obtain hs' s' where
      r: "Singleton1_run ops [Ptr a] s1 = Some (replicate (gets ops) (Ptr a), hs', s')"
      and t': "trace s' = trace s1"
      by (auto simp: gets_def)
    from g r Call_get_instance
    have "Singleton1_run (c # ops) [] s = Some (replicate (gets (c # ops)) (Ptr a), hs', s')"
      by (simp add: gets_def)
    moreover from t t' Call_get_instance
    have "constructions (trace s') = constructions (trace s) + min 1 (gets (c # ops))"
      "destructions (trace s') = destructions (trace s)"
      by (simp_all add: constructions_def destructions_def gets_def)
    ultimately show ?thesis by blast
  next
    case Drop_handle
    with Cons.IH [OF Cons.prems] show ?thesis by (simp add: gets_def)
  qed
qed


section \<open>Properties of \<^verbatim>\<open>Singleton3<T>\<close>\<close>

text \<open>A reference that a call returns refers to the installed, completely built object.\<close>

lemma Singleton3_returns_installed:
  assumes "Singleton3_get_instance T s = Returned obj s'"
  shows "instance_T s' = Some obj"
  using assms
  by (auto simp: Singleton3_get_instance_def split: option.splits sum.splits prod.splits if_splits)

lemma Singleton3_installed_stays:
  assumes "instance_T s = Some obj"
  shows "Singleton3_get_instance T s = Returned obj s"
  using assms by (simp add: Singleton3_get_instance_def)

text \<open>
  Where the trait is false, as for every type whose only constructor takes the token,
  an exception of the constructor leaves \<^verbatim>\<open>get_instance\<close>, nothing is installed, and
  the next call enters the constructor again.
\<close>

lemma Singleton3_failure_propagates:
  assumes "\<not> is_nothrow_constructible T" and "instance_T s = None"
    and "token_ctor T Token (world s) = (Inl e, w)"
  shows "Singleton3_get_instance T s = Threw e (s\<lparr>ctor_calls := Suc (ctor_calls s), world := w\<rparr>)"
  using assms by (simp add: Singleton3_get_instance_def)

lemma Singleton3_failure_installs_nothing:
  assumes "Singleton3_get_instance T s = Threw e s'"
  shows "instance_T s' = None \<and> ctor_calls s' = Suc (ctor_calls s)"
  using assms
  by (auto simp: Singleton3_get_instance_def split: option.splits sum.splits prod.splits if_splits)

lemma Fails_once_retry:
  "\<exists>s1. Singleton3_get_instance Fails_once (Singleton3_init 0) = Threw ''not yet'' s1 \<and>
         instance_T s1 = None \<and>
         (\<exists>s2. Singleton3_get_instance Fails_once s1 = Returned 1 s2 \<and>
               instance_T s2 = Some 1 \<and> ctor_calls s2 = 2)"
  by (simp add: Singleton3_get_instance_def Fails_once_def Singleton3_init_def)

text \<open>
  C8. The exception specification of \<^verbatim>\<open>get_instance\<close> asks whether \<^verbatim>\<open>T\<close> can be built from
  no arguments without throwing, while the function builds \<^verbatim>\<open>T\<close> from a token. For a type
  where the first cannot throw and the second does, the first call does not hand the
  exception to its caller: the process is terminated.
\<close>

theorem Singleton3_noexcept_terminates:
  "Singleton3_get_instance Throwing_with_default (Singleton3_init ()) = Terminated"
  by (simp add: Singleton3_get_instance_def Throwing_with_default_def Singleton3_init_def)

text \<open>
  The entry point: one constructor call, one line of output, and both references refer
  to the one installed object.
\<close>

lemma main_constructs_once:
  "main (Singleton3_init []) =
     Returned ((), ()) \<lparr>instance_T = Some (), ctor_calls = 1, world = [''constructor called'']\<rparr>"
  by (simp add: main_def Singleton3_get_instance_def DerivedSingle_def Singleton3_init_def)


section \<open>Properties of \<^verbatim>\<open>Singleton4\<close>\<close>

lemma Singleton4_get_instance_calls:
  "Singleton4_calls n s = (replicate n Ref_m_instance, s)"
  by (induction n) (simp_all add: Singleton4_get_instance_def)

text \<open>
  The accessor itself never looks at whether the object has been constructed, and
  never constructs it.
\<close>

lemma Singleton4_get_instance_any_state:
  "Singleton4_get_instance s = (Ref_m_instance, s)"
  by (simp add: Singleton4_get_instance_def)

lemma Singleton4_static_initialization_constructs:
  "m_instance_constructed (Singleton4_static_initialization s) \<and>
   constructions (printed (Singleton4_static_initialization s)) = Suc (constructions (printed s))"
  by (simp add: Singleton4_static_initialization_def constructions_def)

text \<open>
  C10, as the code has it. Static initialisation constructs \<^verbatim>\<open>m_instance\<close>, once, so
  that it exists when \<^verbatim>\<open>main\<close> starts. In every state in which \<^verbatim>\<open>m_instance\<close> has been
  constructed, any number of calls to \<^verbatim>\<open>get_instance\<close> return a reference to that one
  constructed object and leave the state as it was: nothing is constructed and nothing
  is printed.
\<close>

theorem Singleton4_calls_after_initialization:
  assumes "m_instance_constructed s"
  shows "Singleton4_calls n s = (replicate n Ref_m_instance, s) \<and>
         m_instance_constructed (snd (Singleton4_calls n s)) \<and>
         constructions (printed (snd (Singleton4_calls n s))) = constructions (printed s) \<and>
         m_instance_constructed Singleton4_at_main \<and>
         constructions (printed Singleton4_at_main) = 1"
proof -
  have c: "Singleton4_calls n s = (replicate n Ref_m_instance, s)"
    by (rule Singleton4_get_instance_calls)
  have m: "m_instance_constructed Singleton4_at_main"
    by (simp add: Singleton4_at_main_def Singleton4_static_initialization_constructs)
  have k: "constructions (printed Singleton4_at_main) = 1"
    by (simp add: Singleton4_at_main_def Singleton4_static_initialization_def
        Singleton4_loaded_def constructions_def)
  from c assms m k show ?thesis by simp
qed

theorem Singleton4_calls_after_initialization_witness:
  "m_instance_constructed Singleton4_at_main \<and>
   Singleton4_calls 2 Singleton4_at_main = ([Ref_m_instance, Ref_m_instance], Singleton4_at_main) \<and>
   m_instance_constructed (snd (Singleton4_calls 2 Singleton4_at_main)) \<and>
   constructions (printed (snd (Singleton4_calls 2 Singleton4_at_main))) = 1"
proof -
  have h: "m_instance_constructed Singleton4_at_main"
    by (simp add: Singleton4_at_main_def Singleton4_static_initialization_constructs)
  have r: "replicate 2 Ref_m_instance = [Ref_m_instance, Ref_m_instance]"
    by (simp add: numeral_2_eq_2)
  from Singleton4_calls_after_initialization [OF h, of 2] h r show ?thesis by simp
qed

text \<open>
  The source's comment on initialisation order names the case that the statement above
  leaves out: a call made before static initialisation has run, from an initialiser
  that runs first. The accessor returns the same reference, the constructor of the
  object it refers to has not run, and the call does not make it run.
\<close>

theorem Singleton4_early_call_counterexample:
  "Singleton4_get_instance Singleton4_loaded = (Ref_m_instance, Singleton4_loaded) \<and>
   \<not> m_instance_constructed Singleton4_loaded \<and>
   constructions (printed Singleton4_loaded) = 0"
  by (simp add: Singleton4_get_instance_def Singleton4_loaded_def constructions_def)


end
